theory Spec2Isabelle
  imports Complex_Main "HOL-Library.Product_Lexorder" "HOL-Library.Multiset"
begin

section \<open>KPI actions: period resolution, series slicing and forecast dispatch\<close>

text \<open>
  A shallow embedding of \<^verbatim>\<open>rasa-project/actions/actions.py\<close>. Data frames are lists of
  rows in index order, Python integers are \<^typ>\<open>int\<close>, raised exceptions are \<open>Inl\<close>
  values of a sum type, and the library calls whose behaviour the module does not define
  (the date parser, the float conversion of a slot value, the mean of a bin in double
  arithmetic, the two forecasting engines) are parameters of the functions that call
  them.
\<close>

subsection \<open>Python strings\<close>

text \<open>
  Strings are lists of ASCII characters. On these \<open>str.lower\<close> maps \<open>A..Z\<close> to
  \<open>a..z\<close>, and the whitespace of \<open>str.strip\<close> and \<open>str.split\<close> is the characters
  of codes 9 to 13 and 28 to 32. Python strings hold other characters as well, some of
  them whitespace or letters with a lower case; the functions below say nothing about
  such strings, and a property of an arbitrary string assumes that it is ASCII.
\<close>

definition is_space :: "char \<Rightarrow> bool" where
  "is_space c = (let n = (of_char c :: nat) in (9 \<le> n \<and> n \<le> 13) \<or> (28 \<le> n \<and> n \<le> 32))"

definition is_digit :: "char \<Rightarrow> bool" where
  "is_digit c = (let n = (of_char c :: nat) in 48 \<le> n \<and> n \<le> 57)"

definition digit_val :: "char \<Rightarrow> nat" where
  "digit_val c = of_char c - 48"

definition digit_char :: "nat \<Rightarrow> char" where
  "digit_char n = char_of (48 + n)"

definition to_lower :: "char \<Rightarrow> char" where
  "to_lower c = (let n = (of_char c :: nat) in if 65 \<le> n \<and> n \<le> 90 then char_of (n + 32) else c)"

definition lower :: "string \<Rightarrow> string" where
  "lower s = map to_lower s"

definition strip :: "string \<Rightarrow> string" where
  "strip s = rev (dropWhile is_space (rev (dropWhile is_space s)))"

text \<open>\<open>s.split()\<close>: the maximal runs of non-whitespace, in order.\<close>

fun split_ws :: "string \<Rightarrow> string \<Rightarrow> string list" where
  "split_ws cur [] = (if cur = [] then [] else [cur])"
| "split_ws cur (c # cs) =
     (if is_space c then (if cur = [] then split_ws [] cs else cur # split_ws [] cs)
      else split_ws (cur @ [c]) cs)"

definition split :: "string \<Rightarrow> string list" where
  "split s = split_ws [] s"

text \<open>\<open>s.startswith(p)\<close> and \<open>sub in s\<close>.\<close>

fun startswith :: "string \<Rightarrow> string \<Rightarrow> bool" where
  "startswith s [] = True"
| "startswith [] (p # ps) = False"
| "startswith (c # cs) (p # ps) = (c = p \<and> startswith cs ps)"

fun contains :: "string \<Rightarrow> string \<Rightarrow> bool" where
  "contains [] sub = (sub = [])"
| "contains (c # cs) sub = (startswith (c # cs) sub \<or> contains cs sub)"

text \<open>
  \<open>s.split(sep)\<close> for a non-empty separator: cut at every occurrence, scanning from the
  left; the result has one more element than there are occurrences.
\<close>

function split_sep :: "string \<Rightarrow> string \<Rightarrow> string \<Rightarrow> string list" where
  "split_sep sep cur [] = [cur]"
| "split_sep sep cur (c # cs) =
     (if sep \<noteq> [] \<and> startswith (c # cs) sep
      then cur # split_sep sep [] (drop (length sep) (c # cs))
      else split_sep sep (cur @ [c]) cs)"
  by pat_completeness auto
termination
  by (relation "measure (\<lambda>(sep, cur, s). length s)") auto

subsection \<open>Python integers and their text\<close>

datatype py_error = ValueError | BackendError

text \<open>
  \<open>int(s)\<close> on a string of ASCII characters: the blanks around the number are
  dropped, where a blank is a character of codes 9 to 13 or 32 (the separators 28 to 31
  are whitespace for \<open>strip\<close> and \<open>split\<close> but not here); one sign is allowed,
  then decimal digits, where single underscores may stand between digits. A text with
  more digits than the interpreter's bound, 4300 unless it is reconfigured, is rejected.
  Anything else raises \<open>ValueError\<close> too, here \<open>None\<close>.
\<close>

definition is_int_space :: "char \<Rightarrow> bool" where
  "is_int_space c = (let n = (of_char c :: nat) in (9 \<le> n \<and> n \<le> 13) \<or> n = 32)"

definition int_strip :: "string \<Rightarrow> string" where
  "int_strip s = rev (dropWhile is_int_space (rev (dropWhile is_int_space s)))"

definition int_max_str_digits :: nat where
  "int_max_str_digits = 4300"

fun int_digits :: "nat \<Rightarrow> string \<Rightarrow> nat option" where
  "int_digits acc [] = Some acc"
| "int_digits acc [c] = (if is_digit c then Some (acc * 10 + digit_val c) else None)"
| "int_digits acc (c # d # cs) =
     (if is_digit c then int_digits (acc * 10 + digit_val c) (d # cs)
      else if c = CHR ''_'' \<and> is_digit d then int_digits acc (d # cs)
      else None)"

definition int_unsigned :: "string \<Rightarrow> nat option" where
  "int_unsigned s =
     (case s of
        [] \<Rightarrow> None
      | c # cs \<Rightarrow>
          if is_digit c \<and> length (filter is_digit s) \<le> int_max_str_digits
          then int_digits 0 s else None)"

definition py_int :: "string \<Rightarrow> int option" where
  "py_int s =
     (case int_strip s of
        [] \<Rightarrow> None
      | c # cs \<Rightarrow>
          if c = CHR ''-'' then map_option (\<lambda>n. - int n) (int_unsigned cs)
          else if c = CHR ''+'' then map_option int (int_unsigned cs)
          else map_option int (int_unsigned (c # cs)))"

text \<open>\<open>str(n)\<close> for an integer.\<close>

fun digits_of :: "nat \<Rightarrow> string" where
  "digits_of n = (if n < 10 then [digit_char n] else digits_of (n div 10) @ [digit_char (n mod 10)])"

declare digits_of.simps [simp del]

definition py_str :: "int \<Rightarrow> string" where
  "py_str i = (if i < 0 then CHR ''-'' # digits_of (nat (- i)) else digits_of (nat i))"

text \<open>
  Two-digit zero padding, as \<open>%m\<close> of \<open>strftime\<close> prints a month. The year of a
  \<open>Timestamp\<close> has four digits, so \<open>%Y\<close> prints it as \<open>str\<close> does.
\<close>

definition pad2 :: "int \<Rightarrow> string" where
  "pad2 i = (if 0 \<le> i \<and> i < 10 then CHR ''0'' # py_str i else py_str i)"

subsection \<open>\<open>parse_last_period\<close>\<close>

fun find_number :: "string list \<Rightarrow> int option" where
  "find_number [] = None"
| "find_number (token # words) =
     (case py_int token of Some n \<Rightarrow> Some n | None \<Rightarrow> find_number words)"

definition parse_last_period :: "string \<Rightarrow> int option" where
  "parse_last_period period =
     (let tokens = split (lower period) in
      if ''last'' \<notin> set tokens then None
      else
        let months = (case find_number tokens of None \<Rightarrow> 1 | Some n \<Rightarrow> if n = 0 then 1 else n);
            months = (if ''quarter'' \<in> set tokens \<or> ''quarters'' \<in> set tokens then months * 3
                      else if ''year'' \<in> set tokens \<or> ''years'' \<in> set tokens then months * 12
                      else months)
        in Some (max months 1))"

subsection \<open>Time stamps and monthly series\<close>

text \<open>
  A \<open>Timestamp\<close> is kept as its calendar date; the time of day plays no part in any
  comparison the module makes beyond the order of two stamps in one month. Stamps are
  ordered by (year, month, day).
\<close>

record stamp =
  year :: int
  month :: int
  day :: int

definition stamp_key :: "stamp \<Rightarrow> int \<times> int \<times> int" where
  "stamp_key t = (year t, month t, day t)"

text \<open>A row of the frame with columns \<open>ds\<close>/\<open>y\<close>; \<open>None\<close> in \<open>y\<close> is NaN.\<close>

record point =
  ds :: stamp
  y :: "real option"

type_synonym series = "point list"

text \<open>\<open>ts["ds"].max()\<close> on a frame with at least one row.\<close>

definition ds_max :: "series \<Rightarrow> stamp" where
  "ds_max ts = fold (\<lambda>r best. if stamp_key best < stamp_key (ds r) then ds r else best)
                    (tl ts) (ds (hd ts))"

text \<open>
  \<open>DataFrame.tail(n)\<close>: the last \<open>n\<close> rows, all rows when there are fewer; no row for
  \<open>n = 0\<close>, and all but the first \<open>-n\<close> rows for a negative \<open>n\<close>.
\<close>

definition tail :: "int \<Rightarrow> 'a list \<Rightarrow> 'a list" where
  "tail n xs =
     (if n = 0 then []
      else if 0 < n then drop (length xs - nat n) xs
      else drop (nat (- n)) xs)"

definition between :: "int \<Rightarrow> int \<Rightarrow> int \<Rightarrow> bool" where
  "between x lo hi = (lo \<le> x \<and> x \<le> hi)"

subsection \<open>\<open>filter_period\<close>\<close>

text \<open>
  What \<open>pd.to_datetime(s, errors="raise")\<close> gives for one string: an exception, the
  missing stamp \<open>NaT\<close>, or a stamp. The parser is a parameter of \<open>filter_period\<close>.
\<close>

datatype parsed = Raises | NaT | Parsed stamp

type_synonym selection = "series \<times> string"

definition default_window :: "series \<Rightarrow> selection" where
  "default_window ts = (tail 3 ts, ''last '' @ py_str (min (int (length ts)) 3) @ '' period(s)'')"

definition ytd_subset :: "series \<Rightarrow> series" where
  "ytd_subset ts = (let latest = ds_max ts in filter (\<lambda>r. year (ds r) = year latest) ts)"

definition mtd_subset :: "series \<Rightarrow> series" where
  "mtd_subset ts =
     (let latest = ds_max ts
      in filter (\<lambda>r. year (ds r) = year latest \<and> month (ds r) = month latest) ts)"

definition qtd_subset :: "series \<Rightarrow> series" where
  "qtd_subset ts =
     (let latest = ds_max ts;
          quarter = (month latest - 1) div 3 + 1;
          start_month = (quarter - 1) * 3 + 1
      in filter (\<lambda>r. year (ds r) = year latest \<and> between (month (ds r)) start_month (month latest)) ts)"

text \<open>Lines 111 to 122: the branch guarded by \<open>startswith("20")\<close> and \<open>"-q" in\<close>.\<close>

definition quarter_branch :: "series \<Rightarrow> string \<Rightarrow> py_error + selection" where
  "quarter_branch ts normalized =
     (case split_sep ''-q'' [] normalized of
        [year_s, quarter_s] \<Rightarrow>
          (case py_int year_s of
             None \<Rightarrow> Inl ValueError
           | Some yr \<Rightarrow>
               (case py_int (strip quarter_s) of
                  None \<Rightarrow> Inl ValueError
                | Some quarter \<Rightarrow>
                    let start_month = (quarter - 1) * 3 + 1;
                        end_month = start_month + 2;
                        subset = filter (\<lambda>r. year (ds r) = yr
                                   \<and> between (month (ds r)) start_month end_month) ts
                    in if subset = [] then Inr (default_window ts)
                       else Inr (subset, py_str yr @ ''-Q'' @ py_str quarter)))
      | _ \<Rightarrow> Inl ValueError)"

text \<open>Lines 124 to 134: the date branch.\<close>

definition date_branch :: "(string \<Rightarrow> parsed) \<Rightarrow> series \<Rightarrow> string \<Rightarrow> py_error + selection" where
  "date_branch to_datetime ts normalized =
     (case to_datetime normalized of
        Raises \<Rightarrow> Inr (default_window ts)
      | NaT \<Rightarrow> Inr (default_window ts)
      | Parsed p \<Rightarrow>
          let subset = filter (\<lambda>r. year (ds r) = year p \<and> month (ds r) = month p) ts
          in if subset = [] then Inr (default_window ts)
             else Inr (subset, py_str (year p) @ ''-'' @ pad2 (month p)))"

definition filter_period ::
  "(string \<Rightarrow> parsed) \<Rightarrow> series \<Rightarrow> string option \<Rightarrow> py_error + selection" where
  "filter_period to_datetime ts period =
     (if ts = [] then Inr (ts, ''no history available'')
      else case period of
        None \<Rightarrow> Inr (default_window ts)
      | Some p \<Rightarrow>
          if p = [] then Inr (default_window ts)
          else
            let normalized = lower (strip p);
                latest = ds_max ts
            in
            if normalized \<in> {''ytd'', ''year to date''} \<and> ytd_subset ts \<noteq> []
            then Inr (ytd_subset ts, py_str (year latest) @ '' YTD'')
            else if normalized \<in> {''mtd'', ''month to date''} \<and> mtd_subset ts \<noteq> []
            then Inr (mtd_subset ts, py_str (year latest) @ ''-'' @ pad2 (month latest) @ '' MTD'')
            else if normalized \<in> {''qtd'', ''quarter to date''} \<and> qtd_subset ts \<noteq> []
            then Inr (qtd_subset ts,
                      py_str (year latest) @ ''-Q'' @ py_str ((month latest - 1) div 3 + 1) @ '' QTD'')
            else
              (case parse_last_period normalized of
                 Some last_months \<Rightarrow>
                   if last_months \<noteq> 0
                   then Inr (tail last_months ts,
                             ''last '' @ py_str (int (length (tail last_months ts))) @ '' period(s)'')
                   else if startswith normalized ''20'' \<and> contains normalized ''-q''
                   then quarter_branch ts normalized
                   else date_branch to_datetime ts normalized
               | None \<Rightarrow>
                   if startswith normalized ''20'' \<and> contains normalized ''-q''
                   then quarter_branch ts normalized
                   else date_branch to_datetime ts normalized))"

subsection \<open>\<open>load_data\<close> and \<open>slice_series\<close>\<close>

text \<open>
  A row of the history table. A value is a finite double, kept as the number it stands
  for.
\<close>

record observation =
  date :: stamp
  kpi :: string
  segment :: string
  obs_value :: real

type_synonym table = "observation list"

text \<open>The table read from the file is the argument; \<open>load_data\<close> lowers both labels.\<close>

definition load_data :: "table \<Rightarrow> table" where
  "load_data raw = map (\<lambda>ob. ob\<lparr>kpi := lower (kpi ob), segment := lower (segment ob)\<rparr>) raw"

definition month_index :: "stamp \<Rightarrow> int" where
  "month_index t = year t * 12 + (month t - 1)"

definition month_start :: "int \<Rightarrow> stamp" where
  "month_start i = \<lparr>year = i div 12, month = i mod 12 + 1, day = 1\<rparr>"

text \<open>
  \<open>set_index("date").resample("MS").mean().reset_index()\<close> on a frame with at least
  one row: one bin for every month start from the month of the earliest date to the
  month of the latest one. The value of a bin without a row is NaN. The value of any
  other bin is what the library's \<open>mean\<close> computes in double arithmetic from the values
  of its rows, in the order of the frame; this function is the parameter \<open>mean'\<close>,
  which gives the double, or \<open>None\<close> when the result is not a finite number.
\<close>

definition resample_ms_mean :: "(real list \<Rightarrow> real option) \<Rightarrow> table \<Rightarrow> series" where
  "resample_ms_mean mean' rows =
     (let idx = map (\<lambda>ob. month_index (date ob)) rows;
          lo = fold min (tl idx) (hd idx);
          hi = fold max (tl idx) (hd idx)
      in map (\<lambda>i. \<lparr>ds = month_start i,
                    y = (let vs = map obs_value (filter (\<lambda>ob. month_index (date ob) = i) rows)
                         in if vs = [] then None else mean' vs)\<rparr>)
             [lo..hi])"

text \<open>
  \<open>sort_values("date")\<close> does not fix the order of rows with equal dates; here they
  keep the order of the table.
\<close>

definition slice_series ::
  "(real list \<Rightarrow> real option) \<Rightarrow> table \<Rightarrow> string \<Rightarrow> string \<Rightarrow> series" where
  "slice_series mean' df kpi' segment' =
     (let series = sort_key (\<lambda>ob. stamp_key (date ob))
                     (filter (\<lambda>ob. kpi ob = lower kpi' \<and> segment ob = lower segment') df)
      in if series = [] then [] else resample_ms_mean mean' series)"

subsection \<open>\<open>ensure_positive_int\<close>\<close>

text \<open>
  A double is infinite, not a number, or finite with an exact value. \<open>float(value)\<close> is
  a parameter: \<open>None\<close> where it raises. \<open>math.ceil\<close> raises on the infinities and
  on NaN, and is exact on a finite double.
\<close>

datatype pyfloat = Finite real | PosInf | NegInf | NaN

definition ensure_positive_int :: "('v \<Rightarrow> pyfloat option) \<Rightarrow> 'v option \<Rightarrow> int \<Rightarrow> int" where
  "ensure_positive_int float' value default' =
     (case value of
        None \<Rightarrow> default'
      | Some v \<Rightarrow>
          (case float' v of
             None \<Rightarrow> default'
           | Some (Finite x) \<Rightarrow> max \<lceil>x\<rceil> 1
           | Some _ \<Rightarrow> default'))"

subsection \<open>\<open>ActionForecastKPI.run\<close>\<close>

text \<open>
  The slots of the tracker that the action reads; an unset slot is \<open>None\<close>. The result
  is what the dispatcher was told to utter and the events returned. The two engines
  \<open>run_prophet_forecast\<close> and \<open>run_arima_forecast\<close> fit external models; they are
  parameters that give the forecast text or raise. The table is what \<open>read_csv\<close>
  gives, and \<open>float'\<close> and \<open>mean'\<close> are the library functions of the sections above.
\<close>

record 'v tracker =
  kpi_slot :: "string option"
  segment_slot :: "string option"
  horizon_slot :: "'v option"
  model_slot :: "string option"

datatype event = SlotSet string string

record outcome =
  uttered :: "string list"
  events :: "event list"

type_synonym engine = "series \<Rightarrow> int \<Rightarrow> string \<Rightarrow> string \<Rightarrow> py_error + string"

definition slot_or :: "string option \<Rightarrow> string \<Rightarrow> string" where
  "slot_or slot d = (case slot of None \<Rightarrow> d | Some s \<Rightarrow> if s = [] then d else s)"

definition forecast_run ::
  "bool \<Rightarrow> bool \<Rightarrow> engine \<Rightarrow> engine \<Rightarrow> ('v \<Rightarrow> pyfloat option)
     \<Rightarrow> (real list \<Rightarrow> real option) \<Rightarrow> table \<Rightarrow> 'v tracker \<Rightarrow> py_error + outcome" where
  "forecast_run USE_PROPHET USE_ARIMA run_prophet_forecast run_arima_forecast float' mean' raw tr =
     (let kpi' = lower (slot_or (kpi_slot tr) []);
          segment' = lower (slot_or (segment_slot tr) []);
          model = lower (slot_or (model_slot tr) ''prophet'')
      in
      if kpi' = [] \<or> segment' = []
      then Inr \<lparr>uttered = [''I need a KPI and segment before I can run a forecast.''], events = []\<rparr>
      else
        let horizon = ensure_positive_int float' (horizon_slot tr) 3;
            df = load_data raw;
            ts = slice_series mean' df kpi' segment'
        in
        if length ts < 6
        then Inr \<lparr>uttered = [''I need at least 6 months of data to forecast reliably.''], events = []\<rparr>
        else if model = ''prophet'' \<and> USE_PROPHET
        then (case run_prophet_forecast ts horizon kpi' segment' of
                Inl e \<Rightarrow> Inl e
              | Inr forecast_text \<Rightarrow> Inr \<lparr>uttered = [forecast_text], events = []\<rparr>)
        else if USE_ARIMA
        then (case run_arima_forecast ts horizon kpi' segment' of
                Inl e \<Rightarrow> Inl e
              | Inr forecast_text \<Rightarrow>
                  Inr \<lparr>uttered = [forecast_text],
                       events = [SlotSet ''model''
                                  (if model \<noteq> ''prophet'' then ''arima'' else ''prophet_unavailable'')]\<rparr>)
        else Inr \<lparr>uttered = [''Forecasting libraries are not available on the server right now.''],
                  events = []\<rparr>)"

section \<open>Notions used to state the properties\<close>

subsection \<open>ASCII strings\<close>

definition ascii :: "string \<Rightarrow> bool" where
  "ascii s = (\<forall>c\<in>set s. (of_char c :: nat) < 128)"

subsection \<open>Phrases of the form \<open>last N unit\<close>\<close>

text \<open>
  The phrase is the word \<open>last\<close>, then the decimal text of the count when there is
  one, then the unit word when there is one, joined by single blanks.
\<close>

fun join_words :: "string list \<Rightarrow> string" where
  "join_words [] = []"
| "join_words [w] = w"
| "join_words (w # v # ws) = w @ CHR '' '' # join_words (v # ws)"

datatype unit_word = NoUnit | Month | Months | Quarter | Quarters | Year | Years

fun unit_tokens :: "unit_word \<Rightarrow> string list" where
  "unit_tokens NoUnit = []"
| "unit_tokens Month = [''month'']"
| "unit_tokens Months = [''months'']"
| "unit_tokens Quarter = [''quarter'']"
| "unit_tokens Quarters = [''quarters'']"
| "unit_tokens Year = [''year'']"
| "unit_tokens Years = [''years'']"

fun unit_months :: "unit_word \<Rightarrow> int" where
  "unit_months Quarter = 3"
| "unit_months Quarters = 3"
| "unit_months Year = 12"
| "unit_months Years = 12"
| "unit_months _ = 1"

definition last_tokens :: "int option \<Rightarrow> unit_word \<Rightarrow> string list" where
  "last_tokens N u = ''last'' # (case N of None \<Rightarrow> [] | Some n \<Rightarrow> [py_str n]) @ unit_tokens u"

definition last_phrase :: "int option \<Rightarrow> unit_word \<Rightarrow> string" where
  "last_phrase N u = join_words (last_tokens N u)"

text \<open>An integer whose decimal text is within the bound on the digits that \<open>int\<close> reads.\<close>

definition fits :: "int \<Rightarrow> bool" where
  "fits i = (length (digits_of (nat \<bar>i\<bar>)) \<le> int_max_str_digits)"

text \<open>The count that the phrase asks for: 1 without a number, and 1 for the number 0.\<close>

definition requested :: "int option \<Rightarrow> int" where
  "requested N = (case N of None \<Rightarrow> 1 | Some n \<Rightarrow> if n = 0 then 1 else n)"

text \<open>A word without whitespace or capital letters, and a non-empty run of digits.\<close>

definition plain :: "string \<Rightarrow> bool" where
  "plain w = (w \<noteq> [] \<and> (\<forall>c\<in>set w. \<not> is_space c \<and> to_lower c = c))"

definition digit_string :: "string \<Rightarrow> bool" where
  "digit_string s = (s \<noteq> [] \<and> (\<forall>c\<in>set s. is_digit c))"

subsection \<open>The latest points of a series\<close>

definition is_latest :: "series \<Rightarrow> point \<Rightarrow> bool" where
  "is_latest ts r = (r \<in> set ts \<and> (\<forall>r'\<in>set ts. stamp_key (ds r') \<le> stamp_key (ds r)))"

definition to_date_subset :: "string \<Rightarrow> series \<Rightarrow> series" where
  "to_date_subset p ts =
     (if p \<in> {''ytd'', ''year to date''} then ytd_subset ts
      else if p \<in> {''mtd'', ''month to date''} then mtd_subset ts
      else qtd_subset ts)"

subsection \<open>Quarter expressions and the to-date keywords\<close>

text \<open>
  The expression \<open>YYYY-Qn\<close> for a year and a quarter number, and the points of a series
  in the months \<open>3n-2\<close> to \<open>3n\<close> of that year.
\<close>

definition quarter_phrase :: "int \<Rightarrow> int \<Rightarrow> string" where
  "quarter_phrase yr n = py_str yr @ ''-Q'' @ py_str n"

definition quarter_points :: "int \<Rightarrow> int \<Rightarrow> series \<Rightarrow> series" where
  "quarter_points yr n ts =
     filter (\<lambda>r. year (ds r) = yr \<and> 3 * n - 2 \<le> month (ds r) \<and> month (ds r) \<le> 3 * n) ts"

definition to_date_keyword :: "string \<Rightarrow> bool" where
  "to_date_keyword s =
     (s \<in> {''ytd'', ''year to date'', ''mtd'', ''month to date'', ''qtd'', ''quarter to date''})"

subsection \<open>Matching observations\<close>

text \<open>
  The observations of a table whose labels equal the requested ones up to case, in the
  order of the table, and the test that an observation is dated in the calendar month of
  a stamp.
\<close>

definition matching :: "table \<Rightarrow> string \<Rightarrow> string \<Rightarrow> table" where
  "matching raw k s = filter (\<lambda>ob. lower (kpi ob) = lower k \<and> lower (segment ob) = lower s) raw"

definition in_month :: "stamp \<Rightarrow> observation \<Rightarrow> bool" where
  "in_month t ob = (year (date ob) = year t \<and> month (date ob) = month t)"

section \<open>Example data\<close>

text \<open>
  The mean as a quotient. It is the library's mean on the readings below, whose sums
  and quotients are doubles.
\<close>

definition exact_mean :: "real list \<Rightarrow> real option" where
  "exact_mean vs = Some (sum_list vs / real (length vs))"

definition two_points :: series where
  "two_points =
     [\<lparr>ds = \<lparr>year = 2024, month = 1, day = 1\<rparr>, y = Some 10\<rparr>,
      \<lparr>ds = \<lparr>year = 2024, month = 2, day = 1\<rparr>, y = Some 12\<rparr>]"

text \<open>Two readings four months apart, and two readings five months apart.\<close>

definition short_table :: table where
  "short_table =
     [\<lparr>date = \<lparr>year = 2024, month = 1, day = 15\<rparr>, kpi = ''Revenue'', segment = ''Retail'',
       obs_value = 100\<rparr>,
      \<lparr>date = \<lparr>year = 2024, month = 5, day = 3\<rparr>, kpi = ''revenue'', segment = ''RETAIL'',
       obs_value = 140\<rparr>]"

definition long_table :: table where
  "long_table =
     [\<lparr>date = \<lparr>year = 2024, month = 1, day = 15\<rparr>, kpi = ''Revenue'', segment = ''Retail'',
       obs_value = 100\<rparr>,
      \<lparr>date = \<lparr>year = 2024, month = 6, day = 3\<rparr>, kpi = ''revenue'', segment = ''RETAIL'',
       obs_value = 140\<rparr>]"

definition request :: "string \<Rightarrow> real tracker" where
  "request m = \<lparr>kpi_slot = Some ''Revenue'', segment_slot = Some ''retail'',
                horizon_slot = Some (5 / 2), model_slot = Some m\<rparr>"

definition fixed_engine :: "string \<Rightarrow> engine" where
  "fixed_engine forecast_text ts horizon k s = Inr forecast_text"

definition failing_engine :: engine where
  "failing_engine ts horizon k s = Inl BackendError"

definition three_points :: series where
  "three_points =
     [\<lparr>ds = \<lparr>year = 2024, month = 1, day = 1\<rparr>, y = Some 10\<rparr>,
      \<lparr>ds = \<lparr>year = 2024, month = 2, day = 1\<rparr>, y = Some 12\<rparr>,
      \<lparr>ds = \<lparr>year = 2024, month = 3, day = 1\<rparr>, y = Some 11\<rparr>]"

definition eight_points :: series where
  "eight_points =
     map (\<lambda>m. \<lparr>ds = \<lparr>year = 2024, month = m, day = 1\<rparr>, y = Some (real_of_int (100 + m))\<rparr>)
       [1, 2, 3, 4, 5, 6, 7, 8]"

text \<open>
  Two date parsers: one that rejects every string, and one that reads \<open>1999-q1\<close> as
  the first day of that quarter and rejects the rest.
\<close>

definition no_dates :: "string \<Rightarrow> parsed" where
  "no_dates s = Raises"

definition quarter_dates :: "string \<Rightarrow> parsed" where
  "quarter_dates s =
     (if s = ''1999-q1'' then Parsed \<lparr>year = 1999, month = 1, day = 1\<rparr> else Raises)"

definition quarter_year :: series where
  "quarter_year =
     [\<lparr>ds = \<lparr>year = 2024, month = 2, day = 1\<rparr>, y = Some 10\<rparr>,
      \<lparr>ds = \<lparr>year = 2024, month = 3, day = 1\<rparr>, y = Some 12\<rparr>,
      \<lparr>ds = \<lparr>year = 2024, month = 4, day = 1\<rparr>, y = Some 11\<rparr>,
      \<lparr>ds = \<lparr>year = 2024, month = 5, day = 1\<rparr>, y = Some 13\<rparr>]"

definition year_1999 :: series where
  "year_1999 =
     [\<lparr>ds = \<lparr>year = 1999, month = 1, day = 1\<rparr>, y = Some 10\<rparr>,
      \<lparr>ds = \<lparr>year = 1999, month = 2, day = 1\<rparr>, y = Some 12\<rparr>,
      \<lparr>ds = \<lparr>year = 1999, month = 3, day = 1\<rparr>, y = Some 11\<rparr>,
      \<lparr>ds = \<lparr>year = 1999, month = 4, day = 1\<rparr>, y = Some 13\<rparr>]"

text \<open>Readings of one KPI in January and March, and of another one in February.\<close>

definition gap_table :: table where
  "gap_table =
     [\<lparr>date = \<lparr>year = 2024, month = 3, day = 2\<rparr>, kpi = ''sales'', segment = ''EAST'', obs_value = 3\<rparr>,
      \<lparr>date = \<lparr>year = 2024, month = 1, day = 15\<rparr>, kpi = ''Sales'', segment = ''East'', obs_value = 1\<rparr>,
      \<lparr>date = \<lparr>year = 2024, month = 2, day = 9\<rparr>, kpi = ''costs'', segment = ''east'', obs_value = 8\<rparr>,
      \<lparr>date = \<lparr>year = 2024, month = 3, day = 20\<rparr>, kpi = ''SALES'', segment = ''east'', obs_value = 4\<rparr>]"

section \<open>Properties\<close>

subsection \<open>Characters and decimal text\<close>

lemma digit_char_props:
  assumes "n < 10"
  shows "is_digit (digit_char n)" and "digit_val (digit_char n) = n"
  using assms by (simp_all add: is_digit_def digit_val_def digit_char_def)

lemma is_digit_props:
  assumes "is_digit c"
  shows "\<not> is_space c" and "to_lower c = c"
    and "c \<noteq> CHR ''-''" and "c \<noteq> CHR ''+''" and "c \<noteq> CHR ''q''" and "c \<noteq> CHR ''l''"
    and "\<not> is_int_space c"
  using assms by (auto simp: is_digit_def is_space_def is_int_space_def to_lower_def Let_def)

lemma digits_of_digit_string: "digit_string (digits_of n)"
proof (induction n rule: digits_of.induct)
  case (1 n)
  show ?case
  proof (cases "n < 10")
    case True
    then show ?thesis
      by (subst digits_of.simps) (simp add: digit_string_def digit_char_props)
  next
    case False
    have "is_digit (digit_char (n mod 10))"
      by (simp add: digit_char_props)
    with False "1.IH" show ?thesis
      by (subst digits_of.simps) (simp add: digit_string_def)
  qed
qed

lemma int_digits_all:
  "\<forall>c\<in>set s. is_digit c \<Longrightarrow>
   int_digits acc s = Some (foldl (\<lambda>a c. a * 10 + digit_val c) acc s)"
  by (induction acc s rule: int_digits.induct) simp_all

lemma foldl_digits_of:
  "foldl (\<lambda>a c. a * 10 + digit_val c) acc (digits_of n) = acc * 10 ^ length (digits_of n) + n"
proof (induction n arbitrary: acc rule: digits_of.induct)
  case (1 n)
  show ?case
  proof (cases "n < 10")
    case True
    then show ?thesis
      by (subst (1 2) digits_of.simps) (simp add: digit_char_props)
  next
    case False
    have "digit_val (digit_char (n mod 10)) = n mod 10"
      by (simp add: digit_char_props)
    with False "1.IH" [of acc] show ?thesis
      by (subst (1 2) digits_of.simps) (simp add: algebra_simps)
  qed
qed

lemma int_unsigned_digits_of:
  assumes "length (digits_of n) \<le> int_max_str_digits"
  shows "int_unsigned (digits_of n) = Some n"
proof -
  have ds: "digit_string (digits_of n)"
    by (rule digits_of_digit_string)
  then obtain c cs where eq: "digits_of n = c # cs"
    by (cases "digits_of n") (auto simp: digit_string_def)
  with ds have "is_digit c"
    by (simp add: digit_string_def)
  moreover have "filter is_digit (digits_of n) = digits_of n"
    using ds by (simp add: digit_string_def)
  moreover have "int_digits 0 (digits_of n) = Some n"
    using ds by (simp add: digit_string_def int_digits_all foldl_digits_of)
  ultimately show ?thesis
    using assms unfolding int_unsigned_def eq [symmetric] by (simp add: eq)
qed

lemma py_str_chars: "py_str i \<noteq> [] \<and> (\<forall>c\<in>set (py_str i). is_digit c \<or> c = CHR ''-'')"
  using digits_of_digit_string [of "nat i"] digits_of_digit_string [of "nat (- i)"]
  by (auto simp: py_str_def digit_string_def)

lemma strip_id: "s \<noteq> [] \<Longrightarrow> \<not> is_space (hd s) \<Longrightarrow> \<not> is_space (last s) \<Longrightarrow> strip s = s"
proof -
  assume ne: "s \<noteq> []" and h: "\<not> is_space (hd s)" and l: "\<not> is_space (last s)"
  from ne h have "dropWhile is_space s = s"
    by (cases s) simp_all
  moreover from ne l have "dropWhile is_space (rev s) = rev s"
    by (cases "rev s") (simp_all add: last_rev [symmetric] del: last_rev)
  ultimately show ?thesis
    by (simp add: strip_def)
qed

lemma digit_string_ends:
  assumes "digit_string s"
  shows "is_digit (hd s)" and "is_digit (last s)"
  using assms by (auto simp: digit_string_def)

lemma int_strip_id:
  "s \<noteq> [] \<Longrightarrow> \<not> is_int_space (hd s) \<Longrightarrow> \<not> is_int_space (last s) \<Longrightarrow> int_strip s = s"
proof -
  assume ne: "s \<noteq> []" and h: "\<not> is_int_space (hd s)" and l: "\<not> is_int_space (last s)"
  from ne h have "dropWhile is_int_space s = s"
    by (cases s) simp_all
  moreover from ne l have "dropWhile is_int_space (rev s) = rev s"
    by (cases "rev s") (simp_all add: last_rev [symmetric] del: last_rev)
  ultimately show ?thesis
    by (simp add: int_strip_def)
qed

lemma py_int_py_str:
  assumes "fits i"
  shows "py_int (py_str i) = Some i"
proof (cases "i < 0")
  case True
  let ?d = "digits_of (nat (- i))"
  have d: "digit_string ?d"
    by (rule digits_of_digit_string)
  have len: "length ?d \<le> int_max_str_digits"
    using assms True by (simp add: fits_def)
  have "\<not> is_int_space (last (CHR ''-'' # ?d))"
    using d digit_string_ends(2) [OF d] by (simp add: digit_string_def is_digit_props)
  moreover have "\<not> is_int_space (CHR ''-'')"
    by (simp add: is_int_space_def)
  ultimately have "int_strip (CHR ''-'' # ?d) = CHR ''-'' # ?d"
    by (intro int_strip_id) simp_all
  with True show ?thesis
    by (simp add: py_int_def py_str_def int_unsigned_digits_of [OF len])
next
  case False
  let ?d = "digits_of (nat i)"
  have d: "digit_string ?d"
    by (rule digits_of_digit_string)
  have len: "length ?d \<le> int_max_str_digits"
    using assms False by (simp add: fits_def)
  then obtain c cs where eq: "?d = c # cs"
    using d by (cases ?d) (auto simp: digit_string_def)
  have c: "is_digit c"
    using d eq by (simp add: digit_string_def)
  have "int_strip ?d = ?d"
    using d digit_string_ends [OF d]
    by (intro int_strip_id) (simp_all add: digit_string_def is_digit_props)
  moreover have "int_unsigned (c # cs) = Some (nat i)"
    using int_unsigned_digits_of [OF len] eq by simp
  ultimately show ?thesis
    using False c eq by (simp add: py_int_def py_str_def is_digit_props)
qed

subsection \<open>Words joined by blanks\<close>

lemma split_ws_word: "\<forall>c\<in>set w. \<not> is_space c \<Longrightarrow> split_ws cur (w @ rest) = split_ws (cur @ w) rest"
  by (induction w arbitrary: cur) simp_all

lemma split_ws_join: "\<forall>w\<in>set (v # ws). plain w \<Longrightarrow> split_ws [] (join_words (v # ws)) = v # ws"
proof (induction ws arbitrary: v)
  case Nil
  then show ?case
    using split_ws_word [of v "[]" "[]"] by (simp add: plain_def)
next
  case (Cons u us)
  from Cons.prems have v: "\<forall>c\<in>set v. \<not> is_space c" "v \<noteq> []"
    by (simp_all add: plain_def)
  have "split_ws [] (v @ CHR '' '' # join_words (u # us)) = split_ws v (CHR '' '' # join_words (u # us))"
    using split_ws_word [OF v(1), of "[]"] by simp
  also have "\<dots> = v # split_ws [] (join_words (u # us))"
    using v(2) by (simp add: is_space_def)
  also have "\<dots> = v # u # us"
    using Cons.IH [of u] Cons.prems by simp
  finally show ?case by simp
qed

lemma split_join: "\<forall>w\<in>set ws. plain w \<Longrightarrow> split (join_words ws) = ws"
proof (cases ws)
  case Nil
  then show ?thesis by (simp add: split_def)
next
  case (Cons v vs)
  assume "\<forall>w\<in>set ws. plain w"
  with Cons show ?thesis
    unfolding split_def by (simp only: split_ws_join)
qed

lemma join_words_chars:
  "\<forall>w\<in>set ws. plain w \<Longrightarrow> c \<in> set (join_words ws) \<Longrightarrow> to_lower c = c"
  by (induction ws rule: join_words.induct) (auto simp: plain_def to_lower_def)

lemma lower_join: "\<forall>w\<in>set ws. plain w \<Longrightarrow> lower (join_words ws) = join_words ws"
  unfolding lower_def by (rule map_idI) (rule join_words_chars)

lemma join_words_ends:
  "ws \<noteq> [] \<Longrightarrow> \<forall>w\<in>set ws. plain w \<Longrightarrow>
   join_words ws \<noteq> [] \<and> hd (join_words ws) = hd (hd ws) \<and> last (join_words ws) = last (last ws)"
  by (induction ws rule: join_words.induct) (auto simp: plain_def)

lemma strip_join:
  assumes "ws \<noteq> []" and "\<forall>w\<in>set ws. plain w"
  shows "strip (join_words ws) = join_words ws"
proof -
  from assms have "plain (hd ws)" and "plain (last ws)"
    by simp_all
  then have "\<not> is_space (hd (hd ws))" and "\<not> is_space (last (last ws))"
    by (simp_all add: plain_def)
  with join_words_ends [OF assms] show ?thesis
    by (intro strip_id) simp_all
qed

lemma dash_plain: "\<not> is_space (CHR ''-'')" "to_lower (CHR ''-'') = CHR ''-''"
  by (simp_all add: is_space_def to_lower_def)

lemma plain_py_str: "plain (py_str i)"
proof -
  have "\<not> is_space c \<and> to_lower c = c" if "c \<in> set (py_str i)" for c
  proof -
    from that py_str_chars [of i] have "is_digit c \<or> c = CHR ''-''"
      by blast
    then show ?thesis
      by (auto simp: is_digit_props dash_plain)
  qed
  with py_str_chars [of i] show ?thesis
    by (simp add: plain_def)
qed

lemma plain_words:
  "plain ''last''" "plain ''month''" "plain ''months''" "plain ''quarter''" "plain ''quarters''"
  "plain ''year''" "plain ''years''"
  by (simp_all add: plain_def is_space_def to_lower_def)

lemma plain_last_tokens: "\<forall>w\<in>set (last_tokens N u). plain w"
  by (cases u; cases N) (simp_all add: last_tokens_def plain_words plain_py_str)

lemma to_lower_idem: "to_lower (to_lower c) = to_lower c"
  by (simp add: to_lower_def Let_def)

lemma lower_idem: "lower (lower s) = lower s"
  by (simp add: lower_def to_lower_idem)

subsection \<open>The text of a year of this century and of a digit\<close>

lemma digits_of_small: "n < 10 \<Longrightarrow> digits_of n = [digit_char n]"
  by (subst digits_of.simps) simp

lemma digits_of_step: "10 \<le> n \<Longrightarrow> digits_of n = digits_of (n div 10) @ [digit_char (n mod 10)]"
  by (subst digits_of.simps) simp

lemma digits_of_20: "digits_of 20 = ''20''"
  by code_simp

lemma shift_div_mod:
  fixes j c :: nat
  shows "(c * 10 + j) div 10 = c + j div 10" and "(c * 10 + j) mod 10 = j mod 10"
  by simp_all

lemma digits_of_century:
  assumes "a < 10" and "b < 10"
  shows "digits_of ((20 * 10 + a) * 10 + b) = [CHR ''2'', CHR ''0'', digit_char a, digit_char b]"
proof -
  have "digits_of ((20 * 10 + a) * 10 + b) = digits_of (20 * 10 + a) @ [digit_char b]"
    using assms digits_of_step [of "(20 * 10 + a) * 10 + b"]
    by (simp only: shift_div_mod) simp
  moreover have "digits_of (20 * 10 + a) = digits_of 20 @ [digit_char a]"
    using assms digits_of_step [of "20 * 10 + a"]
    by (simp only: shift_div_mod) simp
  ultimately show ?thesis
    by (simp add: digits_of_20)
qed

lemma py_str_century:
  assumes "2000 \<le> yr" and "yr \<le> 2099"
  shows "\<exists>c d. py_str yr = [CHR ''2'', CHR ''0'', c, d] \<and> is_digit c \<and> is_digit d"
proof -
  define k where "k = nat (yr - 2000)"
  define a where "a = k div 10"
  define b where "b = k mod 10"
  have k: "k < 100" and yr: "yr = 2000 + int k"
    using assms by (simp_all add: k_def)
  have ab: "a < 10" "b < 10"
    using k by (simp_all add: a_def b_def)
  have "k = a * 10 + b"
    by (simp add: a_def b_def)
  then have "nat yr = (20 * 10 + a) * 10 + b"
    by (simp add: yr)
  then have "py_str yr = [CHR ''2'', CHR ''0'', digit_char a, digit_char b]"
    using assms(1) digits_of_century [OF ab] by (simp add: py_str_def)
  with ab show ?thesis
    by (simp add: digit_char_props)
qed

lemma py_str_digit:
  assumes "0 \<le> n" and "n \<le> 9"
  shows "\<exists>e. py_str n = [e] \<and> is_digit e"
  using assms by (simp add: py_str_def digits_of_small digit_char_props)

subsection \<open>The default window\<close>

lemma tail_pos: "0 < n \<Longrightarrow> tail n xs = drop (length xs - min (length xs) (nat n)) xs"
  by (cases "length xs \<le> nat n") (simp_all add: tail_def min_def)

lemma default_window_eq:
  "default_window ts =
     (drop (length ts - min (length ts) 3) ts,
      ''last '' @ py_str (int (min (length ts) 3)) @ '' period(s)'')"
proof -
  have "tail 3 ts = drop (length ts - min (length ts) 3) ts"
    using tail_pos [of 3 ts] by simp
  moreover have "min (int (length ts)) 3 = int (min (length ts) 3)"
    by simp
  ultimately show ?thesis
    by (simp only: default_window_def)
qed

text \<open>
  Claim C6. On a series with at least one point and without a period expression,
  \<open>filter_period\<close> returns the last \<open>min(3, len)\<close> points, that many of them, and the
  label \<open>last K period(s)\<close> for this \<open>K\<close>.
\<close>

theorem resolve_without_expression:
  "ts \<noteq> [] \<Longrightarrow>
   filter_period to_datetime ts None =
     Inr (drop (length ts - min (length ts) 3) ts,
          ''last '' @ py_str (int (min (length ts) 3)) @ '' period(s)'') \<and>
   length (drop (length ts - min (length ts) 3) ts) = min (length ts) 3"
  by (simp add: filter_period_def default_window_eq)

theorem resolve_without_expression_witness:
  "two_points \<noteq> [] \<and>
   filter_period (\<lambda>s. Raises) two_points None = Inr (two_points, ''last 2 period(s)'')"
proof -
  have ne: "two_points \<noteq> []"
    by (simp add: two_points_def)
  have "length two_points = 2"
    by (simp add: two_points_def)
  moreover have "py_str 2 = ''2''"
    by code_simp
  ultimately show ?thesis
    using ne resolve_without_expression [OF ne, of "\<lambda>s. Raises"] by simp
qed

subsection \<open>A malformed quarter expression\<close>

text \<open>
  Claim C1. The expression \<open>20-qx\<close> passes the guard of the quarter branch, and
  \<open>int("x")\<close> raises there: \<open>filter_period\<close> does not return a selection, whatever the
  date parser would do.
\<close>

theorem malformed_quarter_raises:
  "filter_period to_datetime
     [\<lparr>ds = \<lparr>year = 2024, month = 1, day = 1\<rparr>, y = Some 10\<rparr>] (Some ''20-qx'') = Inl ValueError"
  by code_simp

subsection \<open>Horizon coercion\<close>

text \<open>
  Claim C9. With the default 3 of the forecast action, \<open>ensure_positive_int\<close> returns an
  integer that is at least 1 for every slot value: 3 for an unset slot and for a value
  that \<open>float\<close> rejects, the ceiling raised to at least 1 for a value with a finite
  double, and 3 again for an infinity or NaN, on which \<open>math.ceil\<close> raises.
\<close>

theorem horizon_coercion:
  "1 \<le> ensure_positive_int float' slot 3 \<and>
   (slot = None \<longrightarrow> ensure_positive_int float' slot 3 = 3) \<and>
   (slot = Some v \<longrightarrow>
      ensure_positive_int float' slot 3 =
        (case float' v of None \<Rightarrow> 3 | Some (Finite x) \<Rightarrow> max 1 \<lceil>x\<rceil> | Some _ \<Rightarrow> 3))"
  by (auto simp: ensure_positive_int_def split: option.splits pyfloat.splits)

theorem horizon_coercion_witness:
  "ensure_positive_int (\<lambda>x. Some (Finite x)) (Some (5 / 2 :: real)) 3 = 3 \<and>
   ensure_positive_int (\<lambda>x. Some (Finite x)) (Some (- 4 :: real)) 3 = 1 \<and>
   ensure_positive_int (\<lambda>x :: real. None) (Some 7) 3 = 3 \<and>
   ensure_positive_int (\<lambda>x :: real. Some PosInf) None 3 = 3"
  using horizon_coercion [where float' = "\<lambda>x. Some (Finite x)" and v = "5 / 2 :: real"
      and slot = "Some (5 / 2)"]
    horizon_coercion [where float' = "\<lambda>x. Some (Finite x)" and v = "- 4 :: real"
      and slot = "Some (- 4)"]
    horizon_coercion [where float' = "\<lambda>x :: real. None" and v = 7 and slot = "Some 7"]
    horizon_coercion [where float' = "\<lambda>x :: real. Some PosInf" and v = 0 and slot = None]
  by simp

subsection \<open>Forecast dispatch\<close>

lemma lower_nonempty: "s \<noteq> [] \<Longrightarrow> lower s \<noteq> []"
  by (simp add: lower_def)

text \<open>
  Claim C4. When the series sliced for the requested KPI and segment has fewer than six
  points, the action utters the insufficient-history message and returns no event, for
  every horizon slot, model slot and availability of the engines. The result is the same
  for all engines, also for one that raises on every call: neither is called.
\<close>

theorem short_series_no_forecast:
  assumes "kpi_slot tr = Some k" and "k \<noteq> []"
    and "segment_slot tr = Some s" and "s \<noteq> []"
    and "length (slice_series mean' (load_data raw) (lower k) (lower s)) < 6"
  shows "forecast_run USE_PROPHET USE_ARIMA run_prophet_forecast run_arima_forecast float' mean' raw tr =
           Inr \<lparr>uttered = [''I need at least 6 months of data to forecast reliably.''], events = []\<rparr>"
  using assms by (simp add: forecast_run_def slot_or_def lower_nonempty Let_def)

theorem short_series_no_forecast_witness:
  "length (slice_series exact_mean (load_data short_table) (lower ''Revenue'') (lower ''retail'')) < 6 \<and>
   forecast_run True True failing_engine failing_engine (\<lambda>x. Some (Finite x)) exact_mean short_table
       (request ''arima'') =
     Inr \<lparr>uttered = [''I need at least 6 months of data to forecast reliably.''], events = []\<rparr>"
proof -
  have len: "length (slice_series exact_mean (load_data short_table) (lower ''Revenue'') (lower ''retail'')) < 6"
    by code_simp
  have "kpi_slot (request ''arima'') = Some ''Revenue''"
    and "segment_slot (request ''arima'') = Some ''retail''"
    by (simp_all add: request_def)
  from short_series_no_forecast [OF this(1) _ this(2) _ len] len
  show ?thesis by simp
qed

text \<open>
  Claim C5. With Prophet unavailable, ARIMA available and a series of at least six
  points, the action runs the ARIMA engine for either model slot; when the engine
  returns, the event sets the slot \<open>model\<close> to \<open>prophet_unavailable\<close> for the request
  \<open>prophet\<close> and to \<open>arima\<close> for the request \<open>arima\<close>.
\<close>

theorem arima_only_marker:
  assumes "kpi_slot tr = Some k" and "k \<noteq> []"
    and "segment_slot tr = Some s" and "s \<noteq> []"
    and "ts = slice_series mean' (load_data raw) (lower k) (lower s)" and "6 \<le> length ts"
    and "horizon = ensure_positive_int float' (horizon_slot tr) 3"
  shows "forecast_run False True run_prophet_forecast run_arima_forecast float' mean' raw
             (tr\<lparr>model_slot := Some ''prophet''\<rparr>) =
           (case run_arima_forecast ts horizon (lower k) (lower s) of
              Inl e \<Rightarrow> Inl e
            | Inr forecast_text \<Rightarrow>
                Inr \<lparr>uttered = [forecast_text],
                     events = [SlotSet ''model'' ''prophet_unavailable'']\<rparr>)
       \<and> forecast_run False True run_prophet_forecast run_arima_forecast float' mean' raw
             (tr\<lparr>model_slot := Some ''arima''\<rparr>) =
           (case run_arima_forecast ts horizon (lower k) (lower s) of
              Inl e \<Rightarrow> Inl e
            | Inr forecast_text \<Rightarrow>
                Inr \<lparr>uttered = [forecast_text], events = [SlotSet ''model'' ''arima'']\<rparr>)"
proof -
  have "lower ''prophet'' = ''prophet''" and "lower ''arima'' = ''arima''"
    by code_simp+
  then show ?thesis
    using assms by (simp add: forecast_run_def slot_or_def lower_nonempty Let_def)
qed

theorem arima_only_marker_witness:
  "6 \<le> length (slice_series exact_mean (load_data long_table) (lower ''Revenue'') (lower ''retail'')) \<and>
   forecast_run False True failing_engine (fixed_engine ''forecast'') (\<lambda>x. Some (Finite x)) exact_mean
       long_table (request ''prophet'') =
     Inr \<lparr>uttered = [''forecast''], events = [SlotSet ''model'' ''prophet_unavailable'']\<rparr> \<and>
   forecast_run False True failing_engine (fixed_engine ''forecast'') (\<lambda>x. Some (Finite x)) exact_mean
       long_table (request ''arima'') =
     Inr \<lparr>uttered = [''forecast''], events = [SlotSet ''model'' ''arima'']\<rparr>"
proof -
  have len: "6 \<le> length (slice_series exact_mean (load_data long_table) (lower ''Revenue'') (lower ''retail''))"
    by code_simp
  have slots: "kpi_slot (request m) = Some ''Revenue''" "segment_slot (request m) = Some ''retail''"
    for m
    by (simp_all add: request_def)
  have upd: "(request m)\<lparr>model_slot := Some m'\<rparr> = request m'" for m m'
    by (simp add: request_def)
  from arima_only_marker [OF slots(1) [of "''prophet''"] _ slots(2) [of "''prophet''"] _ refl len refl,
      where run_prophet_forecast = failing_engine
        and run_arima_forecast = "fixed_engine ''forecast''" and float' = "\<lambda>x. Some (Finite x)"] len
  show ?thesis by (simp add: upd fixed_engine_def)
qed

subsection \<open>\<open>last N unit\<close> phrases\<close>

lemma py_str_not_word:
  "py_str n \<noteq> ''last''" "py_str n \<noteq> ''quarter''" "py_str n \<noteq> ''quarters''"
  "py_str n \<noteq> ''year''" "py_str n \<noteq> ''years''"
  using py_str_chars [of n] by (auto simp: is_digit_def)

lemma py_int_words:
  "py_int ''last'' = None" "py_int ''month'' = None" "py_int ''months'' = None"
  "py_int ''quarter'' = None" "py_int ''quarters'' = None" "py_int ''year'' = None"
  "py_int ''years'' = None"
  by code_simp+

lemma find_number_last_tokens:
  "\<forall>n. N = Some n \<longrightarrow> fits n \<Longrightarrow> find_number (last_tokens N u) = N"
  by (cases u; cases N) (simp_all add: last_tokens_def py_int_words py_int_py_str)

lemma parse_last_phrase:
  assumes fit: "\<forall>n. N = Some n \<longrightarrow> fits n"
  shows "parse_last_period (last_phrase N u) = Some (max (requested N * unit_months u) 1)"
proof -
  have tokens: "split (lower (last_phrase N u)) = last_tokens N u"
    by (simp add: last_phrase_def lower_join split_join plain_last_tokens)
  have unit: "(if ''quarter'' \<in> set (last_tokens N u) \<or> ''quarters'' \<in> set (last_tokens N u) then m * 3
               else if ''year'' \<in> set (last_tokens N u) \<or> ''years'' \<in> set (last_tokens N u) then m * 12
               else m) = m * unit_months u" for m :: int
    by (cases u; cases N) (simp_all add: last_tokens_def py_str_not_word [symmetric])
  have "''last'' \<in> set (last_tokens N u)"
    by (simp add: last_tokens_def)
  then show ?thesis
    unfolding parse_last_period_def tokens Let_def unit find_number_last_tokens [OF fit]
    by (simp add: requested_def split: option.splits)
qed

lemma last_phrase_normalized: "lower (strip (last_phrase N u)) = last_phrase N u"
  by (simp add: last_phrase_def strip_join lower_join plain_last_tokens last_tokens_def)

lemma last_phrase_head: "\<exists>rest. last_phrase N u = CHR ''l'' # rest"
  by (cases u; cases N) (simp_all add: last_phrase_def last_tokens_def)

text \<open>
  What the code returns for a phrase \<open>last N unit\<close> on a series with at least one
  point, when the decimal text of \<open>N\<close> is within the bound of \<open>int\<close>: the last \<open>K\<close>
  points with the label \<open>last K period(s)\<close>, where \<open>K = min(len, max(1, N' * m))\<close>,
  \<open>m\<close> is 3 for quarters, 12 for years and 1 otherwise, and \<open>N'\<close> is \<open>N\<close>, but 1
  when the number is absent or is 0.
\<close>

lemma last_phrase_window:
  "ts \<noteq> [] \<Longrightarrow> \<forall>n. N = Some n \<longrightarrow> fits n \<Longrightarrow>
   filter_period to_datetime ts (Some (last_phrase N u)) =
     (let K = min (length ts) (nat (max 1 (requested N * unit_months u)))
      in Inr (drop (length ts - K) ts, ''last '' @ py_str (int K) @ '' period(s)''))"
proof -
  assume ne: "ts \<noteq> []" and fit: "\<forall>n. N = Some n \<longrightarrow> fits n"
  let ?m = "max 1 (requested N * unit_months u)"
  obtain rest where p: "last_phrase N u = CHR ''l'' # rest"
    using last_phrase_head by blast
  have pos: "0 < ?m"
    by simp
  have t: "tail ?m ts = drop (length ts - min (length ts) (nat ?m)) ts"
    by (rule tail_pos [OF pos])
  have len: "length (drop (length ts - min (length ts) (nat ?m)) ts) = min (length ts) (nat ?m)"
    by simp
  have key: "last_phrase N u \<notin> {''ytd'', ''year to date''}"
    "last_phrase N u \<notin> {''mtd'', ''month to date''}"
    "last_phrase N u \<notin> {''qtd'', ''quarter to date''}" "last_phrase N u \<noteq> []"
    by (simp_all add: p)
  have "filter_period to_datetime ts (Some (last_phrase N u)) =
          Inr (tail ?m ts, ''last '' @ py_str (int (length (tail ?m ts))) @ '' period(s)'')"
    using ne pos key
    by (simp add: filter_period_def last_phrase_normalized parse_last_phrase [OF fit] Let_def max.commute
        del: insert_iff)
  also have "\<dots> = Inr (drop (length ts - min (length ts) (nat ?m)) ts,
      ''last '' @ py_str (int (min (length ts) (nat ?m))) @ '' period(s)'')"
    unfolding t len ..
  finally show ?thesis
    by (simp only: Let_def)
qed

text \<open>The example of the eight months 2024-01 to 2024-08 and \<open>last 2 quarters\<close>.\<close>

lemma last_two_quarters:
  "filter_period no_dates eight_points (Some ''last 2 quarters'') =
     Inr (drop 2 eight_points, ''last 6 period(s)'')"
  by code_simp

text \<open>
  Claim C8. For \<open>last 0 quarters\<close> the claim gives \<open>K = min(len, max(1, 0 * 3)) = 1\<close>
  point. \<open>parse_last_period\<close> replaces the 0 by 1 before it multiplies by 3, where a
  negative count is raised to 1 after the multiplication, and on the three points below
  the code returns all three.
\<close>

theorem last_zero_quarters_returns_three:
  "last_phrase (Some 0) Quarters = ''last 0 quarters'' \<and>
   min (int (length three_points)) (max 1 (0 * 3)) = 1 \<and>
   parse_last_period ''last 0 quarters'' = Some 3 \<and>
   parse_last_period ''last -1 quarters'' = Some 1 \<and>
   filter_period no_dates three_points (Some ''last 0 quarters'') =
     Inr (three_points, ''last 3 period(s)'')"
  by code_simp
subsection \<open>The to-date keywords\<close>

lemma fold_later_in:
  "fold (\<lambda>r best. if stamp_key best < stamp_key (ds r) then ds r else best) rs b
     \<in> insert b (ds ` set rs)"
  by (induction rs arbitrary: b) (auto split: if_splits)

lemma fold_later_ge:
  "stamp_key b \<le> stamp_key (fold (\<lambda>r best. if stamp_key best < stamp_key (ds r) then ds r else best) rs b)
   \<and> (\<forall>r\<in>set rs. stamp_key (ds r)
         \<le> stamp_key (fold (\<lambda>r best. if stamp_key best < stamp_key (ds r) then ds r else best) rs b))"
proof (induction rs arbitrary: b)
  case Nil
  then show ?case by simp
next
  case (Cons r rs)
  let ?f = "\<lambda>r best. if stamp_key best < stamp_key (ds r) then ds r else best"
  show ?case
  proof (cases "stamp_key b < stamp_key (ds r)")
    case True
    with Cons.IH [of "ds r"] show ?thesis
      by (auto intro: order_trans less_imp_le)
  next
    case False
    then have "stamp_key (ds r) \<le> stamp_key b"
      by simp
    with False Cons.IH [of b] show ?thesis
      by (auto intro: order_trans)
  qed
qed

lemma ds_max_in: "ts \<noteq> [] \<Longrightarrow> ds_max ts \<in> ds ` set ts"
  using fold_later_in [of "tl ts" "ds (hd ts)"] by (cases ts) (auto simp: ds_max_def)

lemma ds_max_ge: "r \<in> set ts \<Longrightarrow> stamp_key (ds r) \<le> stamp_key (ds_max ts)"
  using fold_later_ge [of "ds (hd ts)" "tl ts"] by (cases ts) (auto simp: ds_max_def)

lemma latest_fields:
  assumes "is_latest ts r"
  shows "year (ds r) = year (ds_max ts)" and "month (ds r) = month (ds_max ts)"
proof -
  from assms have ne: "ts \<noteq> []" and r: "r \<in> set ts"
    by (auto simp: is_latest_def)
  from ds_max_in [OF ne] assms have "stamp_key (ds_max ts) \<le> stamp_key (ds r)"
    by (auto simp: is_latest_def)
  with ds_max_ge [OF r] have "stamp_key (ds r) = stamp_key (ds_max ts)"
    by simp
  then show "year (ds r) = year (ds_max ts)" and "month (ds r) = month (ds_max ts)"
    by (simp_all add: stamp_key_def)
qed

lemma latest_exists: "ts \<noteq> [] \<Longrightarrow> \<exists>r. is_latest ts r"
  using ds_max_in [of ts] ds_max_ge [of _ ts] by (fastforce simp: is_latest_def)

lemma quarter_start_le: "((m - 1) div 3 + 1 - 1) * 3 + 1 \<le> (m :: int)"
  by presburger

lemma latest_in_subsets:
  assumes "is_latest ts r"
  shows "r \<in> set (ytd_subset ts)" and "r \<in> set (mtd_subset ts)" and "r \<in> set (qtd_subset ts)"
  using assms latest_fields [OF assms] quarter_start_le [of "month (ds_max ts)"]
  by (simp_all add: ytd_subset_def mtd_subset_def qtd_subset_def between_def Let_def is_latest_def)

lemma keyword_normalized:
  "lower (strip ''ytd'') = ''ytd''" "lower (strip ''year to date'') = ''year to date''"
  "lower (strip ''mtd'') = ''mtd''" "lower (strip ''month to date'') = ''month to date''"
  "lower (strip ''qtd'') = ''qtd''" "lower (strip ''quarter to date'') = ''quarter to date''"
  by code_simp+

text \<open>
  Claim C10. On a series with at least one point, each of the six to-date keywords is
  resolved by its own rule: the subset of that rule is returned, it is not empty, and it
  holds every latest point of the series (a point whose stamp no other exceeds), of
  which there is at least one.
\<close>

theorem to_date_keywords:
  assumes "ts \<noteq> []"
    and "p \<in> {''ytd'', ''year to date'', ''mtd'', ''month to date'', ''qtd'', ''quarter to date''}"
  shows "\<exists>label. filter_period to_datetime ts (Some p) = Inr (to_date_subset p ts, label)
           \<and> to_date_subset p ts \<noteq> []
           \<and> (\<exists>r. is_latest ts r)
           \<and> (\<forall>r. is_latest ts r \<longrightarrow> r \<in> set (to_date_subset p ts))"
proof -
  obtain r where r: "is_latest ts r"
    using latest_exists [OF assms(1)] by blast
  have sub: "ytd_subset ts \<noteq> []" "mtd_subset ts \<noteq> []" "qtd_subset ts \<noteq> []"
    using latest_in_subsets [OF r] by auto
  have all: "\<forall>r. is_latest ts r \<longrightarrow> r \<in> set (to_date_subset p ts)"
    by (simp add: to_date_subset_def latest_in_subsets)
  have ne: "to_date_subset p ts \<noteq> []"
    by (simp add: to_date_subset_def sub)
  let ?Y = "{''ytd'', ''year to date''}" and ?M = "{''mtd'', ''month to date''}"
    and ?Q = "{''qtd'', ''quarter to date''}"
  from assms(2) have norm: "lower (strip p) = p"
    by (elim insertE emptyE) (simp_all only: keyword_normalized)
  from assms(2) have p: "p \<noteq> []"
    by (elim insertE emptyE) simp_all
  have "p \<in> ?Y \<or> p \<notin> ?Y \<and> p \<in> ?M \<or> p \<notin> ?Y \<and> p \<notin> ?M \<and> p \<in> ?Q"
    using assms(2) by (elim insertE emptyE) simp_all
  then consider "p \<in> ?Y" | "p \<notin> ?Y" "p \<in> ?M" | "p \<notin> ?Y" "p \<notin> ?M" "p \<in> ?Q"
    by (elim disjE conjE)
  then have "\<exists>label. filter_period to_datetime ts (Some p) = Inr (to_date_subset p ts, label)"
  proof cases
    case 1
    with assms(1) sub p show ?thesis
      by (simp add: filter_period_def to_date_subset_def norm Let_def del: insert_iff)
  next
    case 2
    with assms(1) sub p show ?thesis
      by (simp add: filter_period_def to_date_subset_def norm Let_def del: insert_iff)
  next
    case 3
    with assms(1) sub p show ?thesis
      by (simp add: filter_period_def to_date_subset_def norm Let_def del: insert_iff)
  qed
  with ne all r show ?thesis
    by blast
qed

theorem to_date_keywords_witness:
  "three_points \<noteq> [] \<and>
   filter_period (\<lambda>s. Raises) three_points (Some ''qtd'') = Inr (three_points, ''2024-Q1 QTD'') \<and>
   is_latest three_points (last three_points)"
proof -
  have ne: "three_points \<noteq> []"
    by (simp add: three_points_def)
  have res: "filter_period (\<lambda>s. Raises) three_points (Some ''qtd'') = Inr (three_points, ''2024-Q1 QTD'')"
    by code_simp
  have "is_latest three_points (last three_points)"
    by (simp add: is_latest_def three_points_def stamp_key_def)
  with to_date_keywords [OF ne, of "''qtd''" "\<lambda>s. Raises"] ne res show ?thesis
    by simp
qed

subsection \<open>Quarter expressions\<close>

lemma quarter_text:
  assumes dc: "is_digit c" and dd: "is_digit d" and de: "is_digit e"
  defines "nz \<equiv> [CHR ''2'', CHR ''0'', c, d, CHR ''-'', CHR ''q'', e]"
  shows "lower (strip [CHR ''2'', CHR ''0'', c, d, CHR ''-'', CHR ''Q'', e]) = nz"
    and "parse_last_period nz = None"
    and "startswith nz ''20''" and "contains nz ''-q''"
    and "split_sep ''-q'' [] nz = [[CHR ''2'', CHR ''0'', c, d], [e]]"
    and "strip [e] = [e]"
proof -
  note dig = is_digit_props [OF dc] is_digit_props [OF dd] is_digit_props [OF de]
  have two: "\<not> is_space (CHR ''2'')"
    by (simp add: is_space_def)
  have "strip [CHR ''2'', CHR ''0'', c, d, CHR ''-'', CHR ''Q'', e]
          = [CHR ''2'', CHR ''0'', c, d, CHR ''-'', CHR ''Q'', e]"
    by (rule strip_id) (simp_all add: dig two)
  then show "lower (strip [CHR ''2'', CHR ''0'', c, d, CHR ''-'', CHR ''Q'', e]) = nz"
    by (simp add: nz_def lower_def dig) (simp add: to_lower_def char_of_eq_iff)
  have "plain nz"
    by (simp add: plain_def nz_def dig) (simp add: to_lower_def is_space_def)
  then have "split (lower nz) = [nz]"
    using lower_join [of "[nz]"] split_join [of "[nz]"] by simp
  then show "parse_last_period nz = None"
    by (simp add: parse_last_period_def) (simp add: nz_def)
  show "startswith nz ''20''"
    by (simp add: nz_def)
  show "contains nz ''-q''"
    by (simp add: nz_def dig)
  show "split_sep ''-q'' [] nz = [[CHR ''2'', CHR ''0'', c, d], [e]]"
    by (simp add: nz_def dig)
  show "strip [e] = [e]"
    by (rule strip_id) (simp_all add: dig)
qed

text \<open>
  Claim C3, as the code has it. On a series with at least one point, an expression
  \<open>YYYY-Qn\<close> whose year lies in 2000 to 2099 resolves to the points in the months
  \<open>3n-2\<close> to \<open>3n\<close> of that year with the expression itself as the label; when there is
  no such point, it resolves to the last \<open>min(3, len)\<close> points with the label
  \<open>last K period(s)\<close>.
\<close>

theorem resolve_quarter_phrase:
  assumes "ts \<noteq> []" and "2000 \<le> yr" and "yr \<le> 2099" and "0 \<le> n" and "n \<le> 9"
  shows "filter_period to_datetime ts (Some (quarter_phrase yr n)) =
           Inr (if quarter_points yr n ts = []
                then (drop (length ts - min (length ts) 3) ts,
                      ''last '' @ py_str (int (min (length ts) 3)) @ '' period(s)'')
                else (quarter_points yr n ts, quarter_phrase yr n))"
proof -
  obtain c d where yr: "py_str yr = [CHR ''2'', CHR ''0'', c, d]" and dc: "is_digit c" and dd: "is_digit d"
    using py_str_century [OF assms(2,3)] by blast
  obtain e where n: "py_str n = [e]" and de: "is_digit e"
    using py_str_digit [OF assms(4,5)] by blast
  let ?nz = "[CHR ''2'', CHR ''0'', c, d, CHR ''-'', CHR ''q'', e]"
  note qt = quarter_text [OF dc dd de]
  have p: "quarter_phrase yr n = [CHR ''2'', CHR ''0'', c, d, CHR ''-'', CHR ''Q'', e]"
    by (simp add: quarter_phrase_def yr n)
  have ints: "py_int [CHR ''2'', CHR ''0'', c, d] = Some yr" "py_int [e] = Some n"
  proof -
    have "fits yr" and "fits n"
      using assms(2,4) yr n by (simp_all add: fits_def py_str_def int_max_str_digits_def)
    then show "py_int [CHR ''2'', CHR ''0'', c, d] = Some yr" and "py_int [e] = Some n"
      using py_int_py_str [of yr] py_int_py_str [of n] by (simp_all add: yr n)
  qed
  have pts: "filter (\<lambda>r. year (ds r) = yr \<and> between (month (ds r)) ((n - 1) * 3 + 1) ((n - 1) * 3 + 1 + 2)) ts
               = quarter_points yr n ts"
    unfolding quarter_points_def by (rule filter_cong) (auto simp: between_def)
  have branch: "quarter_branch ts ?nz =
      Inr (if quarter_points yr n ts = [] then default_window ts
           else (quarter_points yr n ts, quarter_phrase yr n))"
    by (simp only: quarter_branch_def qt(5,6) ints list.case option.case Let_def pts)
      (simp add: quarter_phrase_def)
  have norm: "lower (strip (quarter_phrase yr n)) = ?nz"
    by (simp only: p qt(1))
  have key: "?nz \<notin> {''ytd'', ''year to date''}" "?nz \<notin> {''mtd'', ''month to date''}"
    "?nz \<notin> {''qtd'', ''quarter to date''}" "quarter_phrase yr n \<noteq> []"
    by (simp_all add: p)
  have "filter_period to_datetime ts (Some (quarter_phrase yr n)) = quarter_branch ts ?nz"
    using assms(1) key
    by (simp add: filter_period_def norm qt(2,3,4) Let_def del: insert_iff)
  then show ?thesis
    by (simp add: branch default_window_eq)
qed

theorem resolve_quarter_phrase_witness:
  "quarter_year \<noteq> [] \<and> quarter_phrase 2024 1 = ''2024-Q1'' \<and>
   filter_period no_dates quarter_year (Some ''2024-Q1'') = Inr (take 2 quarter_year, ''2024-Q1'') \<and>
   quarter_phrase 2023 4 = ''2023-Q4'' \<and>
   filter_period no_dates quarter_year (Some ''2023-Q4'') = Inr (drop 1 quarter_year, ''last 3 period(s)'')"
proof -
  have ne: "quarter_year \<noteq> []"
    by (simp add: quarter_year_def)
  have ph: "quarter_phrase 2024 1 = ''2024-Q1''" "quarter_phrase 2023 4 = ''2023-Q4''"
    by code_simp+
  have pts: "quarter_points 2024 1 quarter_year = take 2 quarter_year"
    "quarter_points 2023 4 quarter_year = []"
    by (simp_all add: quarter_points_def quarter_year_def)
  have len: "length quarter_year = 4"
    by (simp add: quarter_year_def)
  have s3: "py_str 3 = ''3''"
    by code_simp
  have nonempty: "take 2 quarter_year \<noteq> []"
    by (simp add: quarter_year_def)
  from resolve_quarter_phrase [OF ne, of 2024 1 no_dates] resolve_quarter_phrase [OF ne, of 2023 4 no_dates]
  show ?thesis
    using ne by (simp add: ph pts len s3 nonempty)
qed

text \<open>
  Claim C3 as stated covers every year. The quarter branch is guarded by
  \<open>startswith("20")\<close>: \<open>1999-Q1\<close> goes to the date branch, which returns the default
  window when the parser rejects the string and the single month of the parsed date
  otherwise, never the three points of the first quarter of 1999 under \<open>1999-Q1\<close>.
\<close>

theorem other_century_counterexample:
  "quarter_phrase 1999 1 = ''1999-Q1'' \<and>
   quarter_points 1999 1 year_1999 = take 3 year_1999 \<and>
   filter_period no_dates year_1999 (Some ''1999-Q1'') = Inr (drop 1 year_1999, ''last 3 period(s)'') \<and>
   filter_period quarter_dates year_1999 (Some ''1999-Q1'') = Inr (take 1 year_1999, ''1999-01'')"
  by code_simp

subsection \<open>Expressions that no rule takes\<close>

text \<open>
  Claim C7, as the code has it, for an expression of ASCII characters. When the
  normalized expression is none of the six
  to-date keywords, has no word \<open>last\<close>, does not both start with \<open>20\<close> and contain
  \<open>-q\<close>, and the date parser raises on it or gives no date, \<open>filter_period\<close> returns
  what it returns without an expression.
\<close>

theorem resolve_unrecognized:
  assumes "normalized = lower (strip period)"
    and "\<not> to_date_keyword normalized"
    and "''last'' \<notin> set (split normalized)"
    and "\<not> (startswith normalized ''20'' \<and> contains normalized ''-q'')"
    and "to_datetime normalized = Raises \<or> to_datetime normalized = NaT"
    and "ascii period"
  shows "filter_period to_datetime ts (Some period) = filter_period to_datetime ts None"
proof -
  have low: "lower normalized = normalized"
    by (simp add: assms(1) lower_idem)
  have none: "parse_last_period normalized = None"
    using assms(3) by (simp add: parse_last_period_def low)
  have date: "date_branch to_datetime ts normalized = Inr (default_window ts)"
    using assms(5) by (auto simp: date_branch_def)
  have key: "normalized \<notin> {''ytd'', ''year to date''}" "normalized \<notin> {''mtd'', ''month to date''}"
    "normalized \<notin> {''qtd'', ''quarter to date''}"
    using assms(2) by (simp_all add: to_date_keyword_def)
  have guard: "(startswith normalized ''20'' \<and> contains normalized ''-q'') = False"
    using assms(4) by simp
  show ?thesis
    using key
    by (simp add: filter_period_def assms(1) [symmetric] none date guard Let_def del: insert_iff)
qed

theorem resolve_unrecognized_witness:
  "lower (strip '' Sometime Soon '') = ''sometime soon'' \<and>
   filter_period no_dates three_points (Some '' Sometime Soon '') = Inr (three_points, ''last 3 period(s)'')
   \<and> filter_period no_dates three_points None = Inr (three_points, ''last 3 period(s)'')"
proof -
  have nz: "''sometime soon'' = lower (strip '' Sometime Soon '')"
    by code_simp
  have a: "\<not> to_date_keyword ''sometime soon''"
    by (simp add: to_date_keyword_def)
  have b: "''last'' \<notin> set (split ''sometime soon'')"
    by code_simp
  have c: "\<not> (startswith ''sometime soon'' ''20'' \<and> contains ''sometime soon'' ''-q'')"
    by simp
  have d: "no_dates ''sometime soon'' = Raises \<or> no_dates ''sometime soon'' = NaT"
    by (simp add: no_dates_def)
  have e: "ascii '' Sometime Soon ''"
    by (simp add: ascii_def)
  have r: "filter_period no_dates three_points None = Inr (three_points, ''last 3 period(s)'')"
    by code_simp
  from resolve_unrecognized [where normalized = "''sometime soon''" and period = "'' Sometime Soon ''"
      and to_datetime = no_dates and ts = three_points, OF nz a b c d e] r nz show ?thesis
    by simp
qed

text \<open>
  Claim C7 as stated takes \<open>at long last\<close> for unrecognized: it is no phrase
  \<open>last N unit\<close>. \<open>parse_last_period\<close> looks for the word \<open>last\<close> anywhere, and the
  result is the last point, not the default window.
\<close>

theorem last_word_counterexample:
  "filter_period no_dates three_points (Some ''at long last'') =
     Inr ([\<lparr>ds = \<lparr>year = 2024, month = 3, day = 1\<rparr>, y = Some 11\<rparr>], ''last 1 period(s)'') \<and>
   filter_period no_dates three_points None = Inr (three_points, ''last 3 period(s)'')"
  by code_simp

subsection \<open>\<open>slice_series\<close>\<close>

lemma load_data_fields:
  "map date (load_data raw) = map date raw" "map obs_value (load_data raw) = map obs_value raw"
  by (simp_all add: load_data_def comp_def)

lemma filter_load_data:
  "filter (\<lambda>ob. kpi ob = lower k \<and> segment ob = lower s) (load_data raw) = load_data (matching raw k s)"
  by (simp add: load_data_def matching_def filter_map comp_def)

lemma sort_key_Nil_iff: "sort_key f xs = [] \<longleftrightarrow> xs = []"
  by (metis length_0_conv length_sort)

lemma month_index_start: "month_index (month_start i) = i"
  by (simp add: month_index_def month_start_def)

lemma month_start_mono: "i < j \<Longrightarrow> stamp_key (month_start i) < stamp_key (month_start j)"
proof -
  assume less: "i < j"
  have le: "i div 12 \<le> j div 12"
    using less by (intro zdiv_mono1) simp_all
  show ?thesis
  proof (cases "i div 12 = j div 12")
    case True
    with less div_mult_mod_eq [of i 12] div_mult_mod_eq [of j 12] have "i mod 12 < j mod 12"
      by linarith
    with True show ?thesis
      by (simp add: stamp_key_def month_start_def less_prod_def)
  next
    case False
    with le have "i div 12 < j div 12"
      by simp
    then show ?thesis
      by (simp add: stamp_key_def month_start_def less_prod_def)
  qed
qed

lemma month_index_iff:
  assumes "1 \<le> month t" and "month t \<le> 12"
  shows "month_index t = i \<longleftrightarrow> year t = year (month_start i) \<and> month t = month (month_start i)"
proof
  assume "month_index t = i"
  then have i: "i = (month t - 1) + year t * 12"
    by (simp add: month_index_def)
  have small: "0 \<le> month t - 1" "month t - 1 < 12"
    using assms by simp_all
  have "i div 12 = year t" and "i mod 12 = month t - 1"
    unfolding i using small by simp_all
  then show "year t = year (month_start i) \<and> month t = month (month_start i)"
    by (simp add: month_start_def)
next
  assume "year t = year (month_start i) \<and> month t = month (month_start i)"
  then have "year t = i div 12" and "month t - 1 = i mod 12"
    by (simp_all add: month_start_def)
  then show "month_index t = i"
    by (simp add: month_index_def)
qed

lemma fold_min_max:
  fixes xs :: "int list"
  assumes "xs \<noteq> []"
  shows "fold min (tl xs) (hd xs) = Min (set xs)" and "fold max (tl xs) (hd xs) = Max (set xs)"
proof -
  from assms obtain x rest where xs: "xs = x # rest"
    by (cases xs) simp_all
  show "fold min (tl xs) (hd xs) = Min (set xs)"
    unfolding xs by (simp only: Min.set_eq_fold list.sel)
  show "fold max (tl xs) (hd xs) = Max (set xs)"
    unfolding xs by (simp only: Max.set_eq_fold list.sel)
qed

lemma resample_ms_mean_eq:
  assumes "rows \<noteq> []"
  shows "resample_ms_mean mean' rows =
           map (\<lambda>i. \<lparr>ds = month_start i,
                      y = (let vs = map obs_value (filter (\<lambda>ob. month_index (date ob) = i) rows)
                           in if vs = [] then None else mean' vs)\<rparr>)
             [Min ((\<lambda>ob. month_index (date ob)) ` set rows) .. Max ((\<lambda>ob. month_index (date ob)) ` set rows)]"
proof -
  have "map (\<lambda>ob. month_index (date ob)) rows \<noteq> []"
    using assms by simp
  from fold_min_max [OF this] show ?thesis
    by (simp add: resample_ms_mean_def Let_def)
qed

lemma slice_series_eq:
  "slice_series mean' (load_data raw) k s =
     (if matching raw k s = [] then []
      else resample_ms_mean mean'
             (sort_key (\<lambda>ob. stamp_key (date ob)) (load_data (matching raw k s))))"
proof -
  have "load_data xs = [] \<longleftrightarrow> xs = []" for xs
    by (simp add: load_data_def)
  then show ?thesis
    by (simp add: slice_series_def lower_idem filter_load_data sort_key_Nil_iff Let_def)
qed

lemma month_values:
  assumes "\<forall>ob\<in>set M. 1 \<le> month (date ob) \<and> month (date ob) \<le> 12"
  shows "mset (map obs_value (filter (\<lambda>ob. month_index (date ob) = i)
            (sort_key (\<lambda>ob. stamp_key (date ob)) (load_data M))))
         = mset (map obs_value (filter (in_month (month_start i)) M))"
proof -
  let ?Q = "\<lambda>ob. month_index (date ob) = i"
  have "filter ?Q (load_data M) = load_data (filter ?Q M)"
    by (simp add: load_data_def filter_map comp_def)
  then have "map obs_value (filter ?Q (load_data M)) = map obs_value (filter ?Q M)"
    by (simp add: load_data_fields)
  moreover have "filter ?Q M = filter (in_month (month_start i)) M"
    using assms by (intro filter_cong refl) (simp add: month_index_iff in_month_def)
  moreover have "mset (map obs_value (sort_key (\<lambda>ob. stamp_key (date ob)) (filter ?Q (load_data M))))
      = mset (map obs_value (filter ?Q (load_data M)))"
    by simp
  ultimately show ?thesis
    by (simp only: filter_sort)
qed

text \<open>
  Claim C2, as the code has it, for labels of ASCII characters and dates with months 1
  to 12. Without a matching observation the series is empty. With one, the series has
  exactly one point for every calendar month from the earliest to the latest month of a
  matching observation, in ascending order, and each point is dated on the first of its
  month. The value of a point is NaN when no matching observation is dated in its month,
  and otherwise what the library's mean gives on the values of the matching
  observations of that month, taken in some order.
\<close>

theorem slice_series_months:
  assumes "\<forall>ob\<in>set raw. 1 \<le> month (date ob) \<and> month (date ob) \<le> 12"
    and "\<forall>ob\<in>set raw. ascii (kpi ob) \<and> ascii (segment ob)" and "ascii k" and "ascii s"
  shows "(matching raw k s = [] \<longrightarrow> slice_series mean' (load_data raw) k s = []) \<and>
         (matching raw k s \<noteq> [] \<longrightarrow>
            map (\<lambda>p. month_index (ds p)) (slice_series mean' (load_data raw) k s) =
              [Min ((\<lambda>ob. month_index (date ob)) ` set (matching raw k s)) ..
               Max ((\<lambda>ob. month_index (date ob)) ` set (matching raw k s))]) \<and>
         sorted_wrt (\<lambda>p q. stamp_key (ds p) < stamp_key (ds q))
           (slice_series mean' (load_data raw) k s) \<and>
         (\<forall>p\<in>set (slice_series mean' (load_data raw) k s).
            ds p = month_start (month_index (ds p)) \<and>
            (\<exists>vs. mset vs = mset (map obs_value (filter (in_month (ds p)) (matching raw k s))) \<and>
                  y p = (if vs = [] then None else mean' vs)))"
proof (cases "matching raw k s = []")
  case True
  then show ?thesis
    by (simp add: slice_series_eq)
next
  case False
  let ?M = "matching raw k s"
  let ?rows = "sort_key (\<lambda>ob. stamp_key (date ob)) (load_data ?M)"
  let ?lo = "Min ((\<lambda>ob. month_index (date ob)) ` set ?M)"
  let ?hi = "Max ((\<lambda>ob. month_index (date ob)) ` set ?M)"
  let ?vs = "\<lambda>i. map obs_value (filter (\<lambda>ob. month_index (date ob) = i) ?rows)"
  let ?row = "\<lambda>i. \<lparr>ds = month_start i, y = (if ?vs i = [] then None else mean' (?vs i))\<rparr>"
  have valid: "\<forall>ob\<in>set ?M. 1 \<le> month (date ob) \<and> month (date ob) \<le> 12"
    using assms(1) by (simp add: matching_def)
  have ne: "?rows \<noteq> []"
    using False by (simp add: sort_key_Nil_iff load_data_def)
  have "set (map date (load_data ?M)) = set (map date ?M)"
    by (simp only: load_data_fields)
  then have "date ` set (load_data ?M) = date ` set ?M"
    by simp
  then have idx: "(\<lambda>ob. month_index (date ob)) ` set (load_data ?M)
      = (\<lambda>ob. month_index (date ob)) ` set ?M"
    by (simp add: image_image [of month_index date, symmetric])
  have S: "slice_series mean' (load_data raw) k s = map ?row [?lo..?hi]"
    using False by (simp add: slice_series_eq resample_ms_mean_eq [OF ne] idx Let_def)
  have a: "map (\<lambda>p. month_index (ds p)) (map ?row [?lo..?hi]) = [?lo..?hi]"
    by (simp add: comp_def month_index_start)
  have b: "sorted_wrt (\<lambda>p q. stamp_key (ds p) < stamp_key (ds q)) (map ?row [?lo..?hi])"
    unfolding sorted_wrt_map
    by (rule sorted_wrt_mono_rel [OF _ sorted_wrt_upto]) (simp add: month_start_mono)
  have c: "ds p = month_start (month_index (ds p)) \<and>
           (\<exists>vs. mset vs = mset (map obs_value (filter (in_month (ds p)) ?M)) \<and>
                 y p = (if vs = [] then None else mean' vs))"
    if "p \<in> set (map ?row [?lo..?hi])" for p
  proof -
    from that obtain i where p: "p = ?row i"
      by auto
    have "mset (?vs i) = mset (map obs_value (filter (in_month (ds p)) ?M))"
      using month_values [OF valid, of i] by (simp add: p)
    moreover have "y p = (if ?vs i = [] then None else mean' (?vs i))"
      by (simp add: p)
    moreover have "ds p = month_start (month_index (ds p))"
      by (simp add: p month_index_start)
    ultimately show ?thesis
      by blast
  qed
  from False a b c show ?thesis
    unfolding S by blast
qed

theorem slice_series_months_witness:
  "slice_series exact_mean (load_data gap_table) ''Sales'' ''east'' =
     [\<lparr>ds = \<lparr>year = 2024, month = 1, day = 1\<rparr>, y = Some 1\<rparr>,
      \<lparr>ds = \<lparr>year = 2024, month = 2, day = 1\<rparr>, y = None\<rparr>,
      \<lparr>ds = \<lparr>year = 2024, month = 3, day = 1\<rparr>, y = Some (7 / 2)\<rparr>] \<and>
   (\<exists>vs. mset vs = mset (map obs_value (filter (in_month \<lparr>year = 2024, month = 3, day = 1\<rparr>)
                                (matching gap_table ''Sales'' ''east''))) \<and>
         Some (7 / 2) = (if vs = [] then None else exact_mean vs))"
proof -
  have v: "\<forall>ob\<in>set gap_table. 1 \<le> month (date ob) \<and> month (date ob) \<le> 12"
    by (simp add: gap_table_def)
  have l: "\<forall>ob\<in>set gap_table. ascii (kpi ob) \<and> ascii (segment ob)"
    by (simp add: gap_table_def ascii_def)
  have ks: "ascii ''Sales''" "ascii ''east''"
    by (simp_all add: ascii_def)
  have r: "slice_series exact_mean (load_data gap_table) ''Sales'' ''east'' =
     [\<lparr>ds = \<lparr>year = 2024, month = 1, day = 1\<rparr>, y = Some 1\<rparr>,
      \<lparr>ds = \<lparr>year = 2024, month = 2, day = 1\<rparr>, y = None\<rparr>,
      \<lparr>ds = \<lparr>year = 2024, month = 3, day = 1\<rparr>, y = Some (7 / 2)\<rparr>]"
    by code_simp
  from slice_series_months [OF v l ks, of exact_mean]
  have "\<forall>p\<in>set (slice_series exact_mean (load_data gap_table) ''Sales'' ''east'').
          \<exists>vs. mset vs = mset (map obs_value (filter (in_month (ds p))
                                  (matching gap_table ''Sales'' ''east''))) \<and>
               y p = (if vs = [] then None else exact_mean vs)"
    by blast
  then have "\<exists>vs. mset vs = mset (map obs_value (filter (in_month \<lparr>year = 2024, month = 3, day = 1\<rparr>)
                                (matching gap_table ''Sales'' ''east''))) \<and>
         Some (7 / 2) = (if vs = [] then None else exact_mean vs)"
    unfolding r by simp
  with r show ?thesis
    by blast
qed

text \<open>
  Claim C2 as stated leaves out the months without a matching observation. With sales
  readings in January and March only, \<open>resample("MS")\<close> gives a point for February
  as well, with the value NaN.
\<close>

theorem gap_month_counterexample:
  "slice_series exact_mean (load_data gap_table) ''Sales'' ''east'' =
     [\<lparr>ds = \<lparr>year = 2024, month = 1, day = 1\<rparr>, y = Some 1\<rparr>,
      \<lparr>ds = \<lparr>year = 2024, month = 2, day = 1\<rparr>, y = None\<rparr>,
      \<lparr>ds = \<lparr>year = 2024, month = 3, day = 1\<rparr>, y = Some (7 / 2)\<rparr>] \<and>
   filter (in_month \<lparr>year = 2024, month = 2, day = 1\<rparr>) (matching gap_table ''Sales'' ''east'') = []"
  by code_simp
end
